theory Spec2Isabelle
  imports Complex_Main "HOL-Library.Multiset"
begin

section \<open>A ledger of debts: credentials, session tokens and per-user scoping\<close>

text \<open>
  The application keeps users, debt groups and debt items in a relational store and
  serves them over HTTP. Three files are embedded here: \<^verbatim>\<open>auth.py\<close> (password
  hashing, session tokens), \<^verbatim>\<open>models.py\<close> (the three tables) and \<^verbatim>\<open>main.py\<close>
  (session resolution and the request handlers).

  Everything a handler does beyond returning a value is explicit: a raised exception is
  the left injection of a sum, the database is a record of three row lists that a
  handler returns updated, the clock and the salt are arguments.
\<close>

subsection \<open>Exceptions\<close>

text \<open>
  The exceptions that cross a function boundary in the three files. \<open>HTTPException\<close>
  carries its status code and the \<^verbatim>\<open>Location\<close> header when there is one. The others are
  raised inside the two libraries the code calls: \<open>BadSignature\<close>, \<open>SignatureExpired\<close> and
  \<open>BadPayload\<close> by the token serializer, \<open>UnknownHashError\<close>, \<open>ValueError\<close> and
  \<open>PasswordValueError\<close> by the password context, \<open>AttributeError\<close> by Python itself.
\<close>

datatype exn =
    HTTPException nat "string option"
  | BadSignature
  | SignatureExpired
  | BadPayload
  | AttributeError
  | UnknownHashError
  | ValueError
  | PasswordValueError

subsection \<open>auth.py: the password context\<close>

text \<open>
  \<^verbatim>\<open>pwd_context = CryptContext(schemes=["bcrypt"], deprecated="auto")\<close>.
  The bcrypt scheme is a parameter (\<open>scheme_hash\<close>, \<open>scheme_verify\<close>): the hash takes
  the random salt as an argument, and both the hash and the verify of the scheme may
  raise. What the context adds to the scheme is the identification
  step of \<^verbatim>\<open>CryptContext.verify\<close>: the digest is matched against the configured schemes,
  and bcrypt recognises a digest by its ident prefix; a digest no scheme recognises
  raises \<^verbatim>\<open>UnknownHashError\<close> (a \<^verbatim>\<open>ValueError\<close>: "hash could not be identified").
\<close>

record crypt_context =
  scheme_hash :: "string \<Rightarrow> string \<Rightarrow> exn + string"
  scheme_verify :: "string \<Rightarrow> string \<Rightarrow> exn + bool"

definition startswith :: "string \<Rightarrow> string \<Rightarrow> bool" where
  "startswith s p = (take (length p) s = p)"

definition bcrypt_ident_values :: "string list" where
  "bcrypt_ident_values = [''$2$'', ''$2a$'', ''$2x$'', ''$2y$'', ''$2b$'']"

definition bcrypt_identify :: "string \<Rightarrow> bool" where
  "bcrypt_identify h = list_ex (startswith h) bcrypt_ident_values"

definition pwd_context_hash :: "crypt_context \<Rightarrow> string \<Rightarrow> string \<Rightarrow> exn + string" where
  "pwd_context_hash ctx salt secret = scheme_hash ctx salt secret"

definition pwd_context_verify :: "crypt_context \<Rightarrow> string \<Rightarrow> string \<Rightarrow> exn + bool" where
  "pwd_context_verify ctx secret h =
     (if bcrypt_identify h then scheme_verify ctx secret h else Inl UnknownHashError)"

text \<open>
  \<^verbatim>\<open>def hash_password(password): return pwd_context.hash(password)\<close>
  \<^verbatim>\<open>def verify_password(plain_password, hashed_password):
      return pwd_context.verify(plain_password, hashed_password)\<close>
  Neither function catches anything.
\<close>

definition hash_password :: "crypt_context \<Rightarrow> string \<Rightarrow> string \<Rightarrow> exn + string" where
  "hash_password ctx salt password = pwd_context_hash ctx salt password"

definition verify_password :: "crypt_context \<Rightarrow> string \<Rightarrow> string \<Rightarrow> exn + bool" where
  "verify_password ctx plain_password hashed_password =
     pwd_context_verify ctx plain_password hashed_password"

text \<open>
  The bcrypt scheme of the library, over the bcrypt computation \<open>crypt\<close> (salt and
  password to digest) and the reading of the salt out of a digest (\<open>salt_of\<close>, nothing
  for a digest that does not parse). The scheme refuses a password that holds a NUL byte
  with \<^verbatim>\<open>PasswordValueError\<close>, when hashing and when verifying; verifying parses the
  digest first (\<^verbatim>\<open>ValueError\<close> when it is malformed), then hashes the password under the
  digest's salt and compares.
\<close>

record bcrypt =
  crypt :: "string \<Rightarrow> string \<Rightarrow> string"
  salt_of :: "string \<Rightarrow> string option"

definition bcrypt_handler :: "bcrypt \<Rightarrow> crypt_context" where
  "bcrypt_handler b =
     \<lparr>scheme_hash = (\<lambda>salt secret.
        if CHR 0x00 \<in> set secret then Inl PasswordValueError else Inr (crypt b salt secret)),
      scheme_verify = (\<lambda>secret h.
        case salt_of b h of
          None \<Rightarrow> Inl ValueError
        | Some salt \<Rightarrow>
            if CHR 0x00 \<in> set secret then Inl PasswordValueError
            else Inr (crypt b salt secret = h))\<rparr>"

subsection \<open>auth.py: session tokens\<close>

text \<open>
  \<^verbatim>\<open>serializer = URLSafeTimedSerializer(SECRET_KEY)\<close>. A token on the wire is
  \<^verbatim>\<open>payload.timestamp.signature\<close>, each part in URL-safe base64 without padding; the
  signature is the keyed MAC of the text \<^verbatim>\<open>payload.timestamp\<close>.

  The signed text is named by what it decodes to: \<open>Value p ts k\<close> is a text whose payload
  part decodes to \<open>p\<close> and whose timestamp part to \<open>ts\<close> (seconds). Several texts decode
  to the same content and the MAC is over the text, so the number \<open>k\<close> tells the texts of
  one content apart; \<open>dumps\<close> writes the text 0. The payload is \<open>Undecodable\<close> when the
  part is not JSON, otherwise the decoded object, a dictionary or something else. The
  dictionary's values follow the annotation of \<^verbatim>\<open>read_session_token\<close>, \<^verbatim>\<open>Optional[int]\<close>:
  an integer or null. Other JSON values are outside the model.

  The signature part is kept as it is written, a string, and decoded as the code decodes
  it. \<open>Signed v sg\<close> is the token with text \<open>v\<close> and signature part \<open>sg\<close>; \<open>Garbled\<close> is
  any string that does not split so (no separator, no timestamp or a malformed one), for
  which the serializer raises an exception of the \<^verbatim>\<open>BadSignature\<close> family whatever else
  it holds.

  The keyed MAC under \<^verbatim>\<open>SECRET_KEY\<close> is a parameter, the \<open>signer\<close>: it maps the text to
  the bytes of its MAC. Nothing is assumed about it.
\<close>

datatype pyobj = Dict "(string \<times> int option) list" | NotADict

datatype payload = Undecodable | Json pyobj

datatype signed_value = Value payload int nat

datatype token = Garbled | Signed signed_value string

type_synonym signer = "signed_value \<Rightarrow> string"

definition SESSION_COOKIE :: string where
  "SESSION_COOKIE = ''session''"

definition SESSION_MAX_AGE :: int where
  "SESSION_MAX_AGE = 60 * 60 * 24 * 14"

text \<open>
  URL-safe base64 as the serializer uses it. \<open>b64_value\<close> is the value of a character
  of the alphabet (the decoder reads \<^verbatim>\<open>+\<close> and \<^verbatim>\<open>/\<close> as well as \<^verbatim>\<open>-\<close> and \<^verbatim>\<open>_\<close>),
  \<open>b64_char\<close> the character of a value. \<open>base64_encode\<close> is
  \<^verbatim>\<open>urlsafe_b64encode(bytes).rstrip(b"=")\<close>: three bytes give four characters, a last
  group of two bytes three characters, of one byte two.
\<close>

definition b64_value :: "char \<Rightarrow> nat option" where
  "b64_value c =
     (let n = (of_char c :: nat) in
      if 65 \<le> n \<and> n \<le> 90 then Some (n - 65)
      else if 97 \<le> n \<and> n \<le> 122 then Some (n - 71)
      else if 48 \<le> n \<and> n \<le> 57 then Some (n + 4)
      else if n = 45 \<or> n = 43 then Some 62
      else if n = 95 \<or> n = 47 then Some 63
      else None)"

definition b64_char :: "nat \<Rightarrow> char" where
  "b64_char k =
     char_of (if k < 26 then 65 + k else if k < 52 then 71 + k else if k < 62 then k - 4
              else if k = 62 then 45 else 95)"

fun base64_encode :: "string \<Rightarrow> string" where
  "base64_encode (a # b # c # bs) =
     [b64_char (of_char a div 4),
      b64_char (of_char a mod 4 * 16 + of_char b div 16),
      b64_char (of_char b mod 16 * 4 + of_char c div 64),
      b64_char (of_char c mod 64)] @ base64_encode bs"
| "base64_encode [a, b] =
     [b64_char (of_char a div 4),
      b64_char (of_char a mod 4 * 16 + of_char b div 16),
      b64_char (of_char b mod 16 * 4)]"
| "base64_encode [a] = [b64_char (of_char a div 4), b64_char (of_char a mod 4 * 16)]"
| "base64_encode [] = []"

text \<open>
  The decoder, \<^verbatim>\<open>binascii.a2b_base64\<close> in its lenient mode, reads the characters one by
  one: \<open>quad_pos\<close> counts the characters of the current group of four, \<open>leftchar\<close> holds
  the bits not yet written, \<open>pads\<close> the padding characters seen in a row. A character
  outside the alphabet is skipped; padding that completes a group ends the decoding and
  the bits left over are dropped; input that ends inside a group is an error.
  \<open>base64_decode\<close> pads its argument with \<^verbatim>\<open>=\<close> to a multiple of four characters
  first; its error makes the signature check fail.
\<close>

fun a2b_base64 :: "nat \<Rightarrow> nat \<Rightarrow> nat \<Rightarrow> string \<Rightarrow> string \<Rightarrow> string option" where
  "a2b_base64 quad_pos leftchar pads out [] = (if quad_pos = 0 then Some out else None)"
| "a2b_base64 quad_pos leftchar pads out (c # cs) =
     (if c = CHR ''='' then
        (if quad_pos \<ge> 2 \<and> quad_pos + (pads + 1) \<ge> 4 then Some out
         else a2b_base64 quad_pos leftchar (if quad_pos \<ge> 2 then pads + 1 else pads) out cs)
      else
        (case b64_value c of
           None \<Rightarrow> a2b_base64 quad_pos leftchar pads out cs
         | Some v \<Rightarrow>
             if quad_pos = 0 then a2b_base64 1 v 0 out cs
             else if quad_pos = 1 then
               a2b_base64 2 (v mod 16) 0 (out @ [char_of (leftchar * 4 + v div 16)]) cs
             else if quad_pos = 2 then
               a2b_base64 3 (v mod 4) 0 (out @ [char_of (leftchar * 16 + v div 4)]) cs
             else a2b_base64 0 0 0 (out @ [char_of (leftchar * 64 + v)]) cs))"

definition base64_decode :: "string \<Rightarrow> string option" where
  "base64_decode s = a2b_base64 0 0 0 [] (s @ replicate ((4 - length s mod 4) mod 4) CHR ''='')"

text \<open>
  \<^verbatim>\<open>serializer.dumps(obj)\<close> at time \<open>now\<close>, and \<^verbatim>\<open>serializer.loads(token, max_age)\<close>:
  the signature part is decoded and compared with the MAC of the text, then the age is
  checked (older than \<open>max_age\<close>, or signed in the future, raises
  \<^verbatim>\<open>SignatureExpired\<close>), then the payload is decoded.
\<close>

definition dumps :: "signer \<Rightarrow> int \<Rightarrow> pyobj \<Rightarrow> token" where
  "dumps mac now obj =
     Signed (Value (Json obj) now 0) (base64_encode (mac (Value (Json obj) now 0)))"

definition verify_signature :: "signer \<Rightarrow> signed_value \<Rightarrow> string \<Rightarrow> bool" where
  "verify_signature mac v sg =
     (case base64_decode sg of None \<Rightarrow> False | Some bytes \<Rightarrow> bytes = mac v)"

definition loads :: "signer \<Rightarrow> int \<Rightarrow> token \<Rightarrow> int \<Rightarrow> exn + pyobj" where
  "loads mac now tok max_age =
     (case tok of
        Garbled \<Rightarrow> Inl BadSignature
      | Signed v sg \<Rightarrow>
          if \<not> verify_signature mac v sg then Inl BadSignature
          else (case v of Value p ts k \<Rightarrow>
            if now - ts > max_age then Inl SignatureExpired
            else if now - ts < 0 then Inl SignatureExpired
            else (case p of Undecodable \<Rightarrow> Inl BadPayload | Json obj \<Rightarrow> Inr obj)))"

text \<open>\<^verbatim>\<open>data.get(key)\<close>: \<^verbatim>\<open>None\<close> for a missing key; an object that is not a dictionary
  has no \<^verbatim>\<open>get\<close>.\<close>

definition dict_get :: "pyobj \<Rightarrow> string \<Rightarrow> exn + int option" where
  "dict_get data k =
     (case data of
        NotADict \<Rightarrow> Inl AttributeError
      | Dict kvs \<Rightarrow> Inr (case map_of kvs k of None \<Rightarrow> None | Some v \<Rightarrow> v))"

text \<open>
  \<^verbatim>\<open>def create_session_token(user_id): return serializer.dumps({"user_id": user_id})\<close>
  \<^verbatim>\<open>def read_session_token(token):
      try: data = serializer.loads(token, max_age=SESSION_MAX_AGE)
      except (BadSignature, SignatureExpired): return None
      return data.get("user_id")\<close>
  \<^verbatim>\<open>BadPayload\<close> is not a \<^verbatim>\<open>BadSignature\<close>, so it is not caught.
\<close>

definition create_session_token :: "signer \<Rightarrow> int \<Rightarrow> int \<Rightarrow> token" where
  "create_session_token mac now user_id = dumps mac now (Dict [(''user_id'', Some user_id)])"

definition read_session_token :: "signer \<Rightarrow> int \<Rightarrow> token \<Rightarrow> exn + int option" where
  "read_session_token mac now tok =
     (case loads mac now tok SESSION_MAX_AGE of
        Inl e \<Rightarrow> if e = BadSignature \<or> e = SignatureExpired then Inr None else Inl e
      | Inr data \<Rightarrow> dict_get data ''user_id'')"

text \<open>The signature of a token verifies.\<close>

definition signature_valid :: "signer \<Rightarrow> token \<Rightarrow> bool" where
  "signature_valid mac tok =
     (case tok of Garbled \<Rightarrow> False | Signed v sg \<Rightarrow> verify_signature mac v sg)"

subsection \<open>models.py: the three tables\<close>

text \<open>
  One record per mapped class, one field per column. Identifiers are Python integers,
  \<^verbatim>\<open>DateTime\<close> columns are integers on a time line, \<^verbatim>\<open>Float\<close> amounts are real numbers
  (sums are exact: the rounding of floating-point addition is not part of the model).
  The columns \<^verbatim>\<open>id\<close>, \<^verbatim>\<open>user_id\<close> and \<^verbatim>\<open>created_at\<close> occur in several tables, so each
  field carries the initial of its table.
\<close>

record user =
  u_id :: int
  u_username :: string
  u_password_hash :: string

record debt_group =
  g_id :: int
  g_user_id :: int
  g_name :: string
  g_created_at :: int

record debt_item =
  i_id :: int
  i_user_id :: int
  i_group_id :: int
  i_amount :: real
  i_note :: "string option"
  i_created_at :: int

record db =
  users :: "user list"
  debt_groups :: "debt_group list"
  debt_items :: "debt_item list"

definition empty_db :: db where
  "empty_db = \<lparr>users = [], debt_groups = [], debt_items = []\<rparr>"

text \<open>
  Modelled from the spec: the Data Store (\<^verbatim>\<open>db.py\<close> and the engine behind it are not among
  the sources) gives every new row an identifier that is unique in its table. The model
  takes one more than the largest identifier present, starting at 1.
\<close>

definition next_id :: "int list \<Rightarrow> int" where
  "next_id ids = fold max ids 0 + 1"

text \<open>
  The relationships of \<^verbatim>\<open>DebtGroup\<close> declare \<^verbatim>\<open>cascade="all, delete-orphan"\<close> on \<open>items\<close>:
  \<^verbatim>\<open>db.delete(group)\<close> deletes the rows of \<^verbatim>\<open>debt_items\<close> whose \<^verbatim>\<open>group_id\<close> is the
  group's, then the group's own row. \<^verbatim>\<open>db.delete(item)\<close> deletes the item's row. Rows
  are deleted by primary key.
\<close>

definition db_delete_group :: "debt_group \<Rightarrow> db \<Rightarrow> db" where
  "db_delete_group g d =
     d\<lparr>debt_groups := filter (\<lambda>g'. g_id g' \<noteq> g_id g) (debt_groups d),
       debt_items := filter (\<lambda>i. i_group_id i \<noteq> g_id g) (debt_items d)\<rparr>"

definition db_delete_item :: "debt_item \<Rightarrow> db \<Rightarrow> db" where
  "db_delete_item it d = d\<lparr>debt_items := filter (\<lambda>i. i_id i \<noteq> i_id it) (debt_items d)\<rparr>"

text \<open>SQL's \<^verbatim>\<open>SUM\<close> is \<^verbatim>\<open>NULL\<close> over no rows; \<^verbatim>\<open>COALESCE\<close> replaces \<^verbatim>\<open>NULL\<close>.\<close>

definition sql_sum :: "real list \<Rightarrow> real option" where
  "sql_sum xs = (if xs = [] then None else Some (sum_list xs))"

definition coalesce :: "'a option \<Rightarrow> 'a \<Rightarrow> 'a" where
  "coalesce x dflt = (case x of None \<Rightarrow> dflt | Some v \<Rightarrow> v)"

text \<open>\<^verbatim>\<open>order_by(created_at.desc())\<close>: rows sorted by decreasing creation time.\<close>

definition order_by_desc :: "('a \<Rightarrow> int) \<Rightarrow> 'a list \<Rightarrow> 'a list" where
  "order_by_desc created_at rows = sort_key (\<lambda>r. - created_at r) rows"

subsection \<open>main.py: requests and responses\<close>

text \<open>
  A request carries its cookies. A response is a rendered template with the values put
  into its context, or a redirect; a form page carries its error message and status
  code, a redirect its status code and the cookie operations done on it.

  The two user-facing messages are Russian sentences in the source: \<open>Username_taken\<close>
  stands for the one of \<^verbatim>\<open>register\<close> ("this name is already taken"),
  \<open>Invalid_credentials\<close> for the one of \<^verbatim>\<open>login\<close> ("wrong login or password").
  \<open>Group_path n\<close> is the formatted path \<^verbatim>\<open>/groups/n\<close>.
\<close>

datatype message = Username_taken | Invalid_credentials

datatype path = Path string | Group_path int

datatype cookie_op =
    Set_cookie string token bool string
  | Delete_cookie string

datatype response =
    RedirectResponse path nat "cookie_op list"
  | FormResponse string "message option" nat
  | DashboardResponse user "(debt_group \<times> real) list" real
  | GroupResponse user debt_group "debt_item list" real

type_synonym cookies = "(string \<times> token) list"

type_synonym 'a result = "(exn + 'a) \<times> db"

subsection \<open>main.py: session resolution\<close>

text \<open>
  \<^verbatim>\<open>def get_current_user(request, db):
      token = request.cookies.get(SESSION_COOKIE)
      if not token: raise HTTPException(status_code=401)
      user_id = read_session_token(token)
      if not user_id: raise HTTPException(status_code=401)
      user = db.query(User).filter(User.id == user_id).first()
      if not user: raise HTTPException(status_code=401)
      return user\<close>
  \<^verbatim>\<open>not user_id\<close> holds of \<^verbatim>\<open>None\<close> and of the integer 0. (The empty cookie value is
  \<open>Garbled\<close>: it is refused by \<^verbatim>\<open>read_session_token\<close> with the same 401 that
  \<^verbatim>\<open>not token\<close> gives.)
\<close>

definition get_current_user :: "signer \<Rightarrow> int \<Rightarrow> cookies \<Rightarrow> db \<Rightarrow> exn + user" where
  "get_current_user mac now request_cookies d =
     (case map_of request_cookies SESSION_COOKIE of
        None \<Rightarrow> Inl (HTTPException 401 None)
      | Some tok \<Rightarrow>
          (case read_session_token mac now tok of
             Inl e \<Rightarrow> Inl e
           | Inr user_id \<Rightarrow>
               if user_id = None \<or> user_id = Some 0 then Inl (HTTPException 401 None)
               else (case find (\<lambda>u. Some (u_id u) = user_id) (users d) of
                       None \<Rightarrow> Inl (HTTPException 401 None)
                     | Some u \<Rightarrow> Inr u)))"

text \<open>
  \<^verbatim>\<open>def require_user(request, db):
      try: return get_current_user(request, db)
      except HTTPException:
          raise HTTPException(status_code=302, headers={"Location": "/login"})\<close>
\<close>

definition require_user :: "signer \<Rightarrow> int \<Rightarrow> cookies \<Rightarrow> db \<Rightarrow> exn + user" where
  "require_user mac now request_cookies d =
     (case get_current_user mac now request_cookies d of
        Inl (HTTPException _ _) \<Rightarrow> Inl (HTTPException 302 (Some ''/login''))
      | Inl e \<Rightarrow> Inl e
      | Inr u \<Rightarrow> Inr u)"

subsection \<open>main.py: registration, login, logout\<close>

text \<open>The cookie both \<^verbatim>\<open>register\<close> and \<^verbatim>\<open>login\<close> set:
  \<^verbatim>\<open>response.set_cookie(SESSION_COOKIE, token, httponly=True, samesite="lax")\<close>.\<close>

definition session_cookie :: "token \<Rightarrow> cookie_op" where
  "session_cookie tok = Set_cookie SESSION_COOKIE tok True ''lax''"

text \<open>
  \<^verbatim>\<open>existing = db.query(User).filter(User.username == username).first()
  if existing:
      return templates.TemplateResponse("register.html", {..., "error": ...}, status_code=400)
  user = User(username=username, password_hash=hash_password(password))
  db.add(user); db.commit(); db.refresh(user)
  token = create_session_token(user.id)
  response = RedirectResponse("/dashboard", status_code=302)
  response.set_cookie(...)
  return response\<close>
  An exception of \<^verbatim>\<open>hash_password\<close> leaves the handler before anything is added.
\<close>

definition register ::
  "crypt_context \<Rightarrow> signer \<Rightarrow> int \<Rightarrow> string \<Rightarrow> string \<Rightarrow> string \<Rightarrow> db \<Rightarrow> response result" where
  "register ctx mac now salt username password d =
     (case find (\<lambda>u. u_username u = username) (users d) of
        Some existing \<Rightarrow> (Inr (FormResponse ''register.html'' (Some Username_taken) 400), d)
      | None \<Rightarrow>
          (case hash_password ctx salt password of
             Inl e \<Rightarrow> (Inl e, d)
           | Inr h \<Rightarrow>
               (let user = \<lparr>u_id = next_id (map u_id (users d)), u_username = username,
                            u_password_hash = h\<rparr>;
                    d' = d\<lparr>users := users d @ [user]\<rparr>;
                    tok = create_session_token mac now (u_id user)
                in (Inr (RedirectResponse (Path ''/dashboard'') 302 [session_cookie tok]),
                    d'))))"

text \<open>
  \<^verbatim>\<open>user = db.query(User).filter(User.username == username).first()
  if not user or not verify_password(password, user.password_hash):
      return templates.TemplateResponse("login.html", {..., "error": ...}, status_code=400)
  token = create_session_token(user.id)
  ...\<close>
  An exception of \<^verbatim>\<open>verify_password\<close> leaves the handler.
\<close>

definition login ::
  "crypt_context \<Rightarrow> signer \<Rightarrow> int \<Rightarrow> string \<Rightarrow> string \<Rightarrow> db \<Rightarrow> response result" where
  "login ctx mac now username password d =
     (case find (\<lambda>u. u_username u = username) (users d) of
        None \<Rightarrow> (Inr (FormResponse ''login.html'' (Some Invalid_credentials) 400), d)
      | Some user \<Rightarrow>
          (case verify_password ctx password (u_password_hash user) of
             Inl e \<Rightarrow> (Inl e, d)
           | Inr ok \<Rightarrow>
               if \<not> ok then (Inr (FormResponse ''login.html'' (Some Invalid_credentials) 400), d)
               else (Inr (RedirectResponse (Path ''/dashboard'') 302
                            [session_cookie (create_session_token mac now (u_id user))]), d)))"

definition logout :: "db \<Rightarrow> response result" where
  "logout d = (Inr (RedirectResponse (Path ''/login'') 302 [Delete_cookie SESSION_COOKIE]), d)"

subsection \<open>main.py: the dashboard\<close>

text \<open>
  \<^verbatim>\<open>group_balances = (
      db.query(DebtGroup, func.coalesce(func.sum(DebtItem.amount), 0.0))
      .outerjoin(DebtItem, DebtItem.group_id == DebtGroup.id)
      .filter(DebtGroup.user_id == user.id)
      .group_by(DebtGroup.id)
      .order_by(DebtGroup.created_at.desc()).all())
  total_balance = (
      db.query(func.coalesce(func.sum(DebtItem.amount), 0.0))
      .filter(DebtItem.user_id == user.id).scalar() or 0.0)\<close>
  The outer join pairs a group with each item whose \<^verbatim>\<open>group_id\<close> is the group's
  \<^verbatim>\<open>id\<close> (whoever the item's \<^verbatim>\<open>user_id\<close> names), or with nulls when there is none;
  grouping by the primary key gives one result row per group.
\<close>

definition group_balance :: "db \<Rightarrow> debt_group \<Rightarrow> real" where
  "group_balance d g =
     coalesce (sql_sum (map i_amount (filter (\<lambda>i. i_group_id i = g_id g) (debt_items d)))) 0"

definition group_balances :: "db \<Rightarrow> user \<Rightarrow> (debt_group \<times> real) list" where
  "group_balances d user =
     order_by_desc (\<lambda>row. g_created_at (fst row))
       (map (\<lambda>g. (g, group_balance d g))
          (filter (\<lambda>g. g_user_id g = u_id user) (debt_groups d)))"

definition total_balance :: "db \<Rightarrow> user \<Rightarrow> real" where
  "total_balance d user =
     (let r = coalesce (sql_sum (map i_amount
                 (filter (\<lambda>i. i_user_id i = u_id user) (debt_items d)))) 0
      in if r = 0 then 0 else r)"

definition dashboard :: "user \<Rightarrow> db \<Rightarrow> response result" where
  "dashboard user d =
     (Inr (DashboardResponse user (group_balances d user) (total_balance d user)), d)"

subsection \<open>main.py: groups and items\<close>

text \<open>The scoped lookup that four handlers begin with:
  \<^verbatim>\<open>db.query(DebtGroup).filter(DebtGroup.id == group_id, DebtGroup.user_id == user.id).first()\<close>.\<close>

definition find_group :: "int \<Rightarrow> user \<Rightarrow> db \<Rightarrow> debt_group option" where
  "find_group group_id user d =
     find (\<lambda>g. g_id g = group_id \<and> g_user_id g = u_id user) (debt_groups d)"

text \<open>
  \<^verbatim>\<open>group = DebtGroup(user_id=user.id, name=name)
  db.add(group); db.commit()
  return RedirectResponse("/dashboard", status_code=302)\<close>
  The column default fills \<^verbatim>\<open>created_at\<close> with the time of the insert.
\<close>

definition create_group :: "int \<Rightarrow> string \<Rightarrow> user \<Rightarrow> db \<Rightarrow> response result" where
  "create_group now name user d =
     (let g = \<lparr>g_id = next_id (map g_id (debt_groups d)), g_user_id = u_id user,
                g_name = name, g_created_at = now\<rparr>
      in (Inr (RedirectResponse (Path ''/dashboard'') 302 []),
          d\<lparr>debt_groups := debt_groups d @ [g]\<rparr>))"

text \<open>
  \<^verbatim>\<open>group = (the scoped lookup)
  if not group: raise HTTPException(status_code=404)
  items = (db.query(DebtItem)
      .filter(DebtItem.group_id == group.id, DebtItem.user_id == user.id)
      .order_by(DebtItem.created_at.desc()).all())
  balance = sum(item.amount for item in items)\<close>
\<close>

definition group_detail :: "int \<Rightarrow> user \<Rightarrow> db \<Rightarrow> response result" where
  "group_detail group_id user d =
     (case find_group group_id user d of
        None \<Rightarrow> (Inl (HTTPException 404 None), d)
      | Some g \<Rightarrow>
          (let items = order_by_desc i_created_at
                 (filter (\<lambda>i. i_group_id i = g_id g \<and> i_user_id i = u_id user) (debt_items d))
           in (Inr (GroupResponse user g items (sum_list (map i_amount items))), d)))"

text \<open>
  \<^verbatim>\<open>group = (the scoped lookup)
  if not group: raise HTTPException(status_code=404)
  item = DebtItem(user_id=user.id, group_id=group.id, amount=amount, note=note)
  db.add(item); db.commit()
  return RedirectResponse(f"/groups/{group.id}", status_code=302)\<close>
\<close>

definition add_item ::
  "int \<Rightarrow> int \<Rightarrow> real \<Rightarrow> string option \<Rightarrow> user \<Rightarrow> db \<Rightarrow> response result" where
  "add_item now group_id amount note user d =
     (case find_group group_id user d of
        None \<Rightarrow> (Inl (HTTPException 404 None), d)
      | Some g \<Rightarrow>
          (let it = \<lparr>i_id = next_id (map i_id (debt_items d)), i_user_id = u_id user,
                      i_group_id = g_id g, i_amount = amount, i_note = note,
                      i_created_at = now\<rparr>
           in (Inr (RedirectResponse (Group_path (g_id g)) 302 []),
               d\<lparr>debt_items := debt_items d @ [it]\<rparr>)))"

text \<open>
  \<^verbatim>\<open>item = (db.query(DebtItem).filter(DebtItem.id == item_id,
      DebtItem.group_id == group_id, DebtItem.user_id == user.id).first())
  if not item: raise HTTPException(status_code=404)
  db.delete(item); db.commit()
  return RedirectResponse(f"/groups/{group_id}", status_code=302)\<close>
\<close>

definition find_item :: "int \<Rightarrow> int \<Rightarrow> user \<Rightarrow> db \<Rightarrow> debt_item option" where
  "find_item item_id group_id user d =
     find (\<lambda>i. i_id i = item_id \<and> i_group_id i = group_id \<and> i_user_id i = u_id user)
       (debt_items d)"

definition delete_item :: "int \<Rightarrow> int \<Rightarrow> user \<Rightarrow> db \<Rightarrow> response result" where
  "delete_item group_id item_id user d =
     (case find_item item_id group_id user d of
        None \<Rightarrow> (Inl (HTTPException 404 None), d)
      | Some it \<Rightarrow> (Inr (RedirectResponse (Group_path group_id) 302 []), db_delete_item it d))"

text \<open>
  \<^verbatim>\<open>group = (the scoped lookup)
  if not group: raise HTTPException(status_code=404)
  db.delete(group); db.commit()
  return RedirectResponse("/dashboard", status_code=302)\<close>
\<close>

definition delete_group :: "int \<Rightarrow> user \<Rightarrow> db \<Rightarrow> response result" where
  "delete_group group_id user d =
     (case find_group group_id user d of
        None \<Rightarrow> (Inl (HTTPException 404 None), d)
      | Some g \<Rightarrow> (Inr (RedirectResponse (Path ''/dashboard'') 302 []), db_delete_group g d))"

subsection \<open>main.py: routing\<close>

text \<open>
  The routes that reach the store, each with the form fields and path parameters of its
  handler. A route that declares \<^verbatim>\<open>Depends(require_user)\<close> runs the handler on the user
  that \<^verbatim>\<open>require_user\<close> returns, and ends with its exception otherwise. The context,
  the signer, the clock and the salt of this request are arguments.
\<close>

datatype request =
    Register string string
  | Login string string
  | Logout
  | Dashboard
  | Create_group string
  | Group_detail int
  | Add_item int real "string option"
  | Delete_item int int
  | Delete_group int

definition with_user ::
  "signer \<Rightarrow> int \<Rightarrow> cookies \<Rightarrow> (user \<Rightarrow> db \<Rightarrow> response result) \<Rightarrow> db \<Rightarrow> response result" where
  "with_user mac now request_cookies handler d =
     (case require_user mac now request_cookies d of
        Inl e \<Rightarrow> (Inl e, d)
      | Inr user \<Rightarrow> handler user d)"

fun serve ::
  "crypt_context \<Rightarrow> signer \<Rightarrow> int \<Rightarrow> string \<Rightarrow> cookies \<Rightarrow> request \<Rightarrow> db \<Rightarrow> response result" where
  "serve ctx mac now salt cs (Register username password) d =
     register ctx mac now salt username password d"
| "serve ctx mac now salt cs (Login username password) d = login ctx mac now username password d"
| "serve ctx mac now salt cs Logout d = logout d"
| "serve ctx mac now salt cs Dashboard d = with_user mac now cs dashboard d"
| "serve ctx mac now salt cs (Create_group name) d = with_user mac now cs (create_group now name) d"
| "serve ctx mac now salt cs (Group_detail group_id) d =
     with_user mac now cs (group_detail group_id) d"
| "serve ctx mac now salt cs (Add_item group_id amount note) d =
     with_user mac now cs (add_item now group_id amount note) d"
| "serve ctx mac now salt cs (Delete_item group_id item_id) d =
     with_user mac now cs (delete_item group_id item_id) d"
| "serve ctx mac now salt cs (Delete_group group_id) d =
     with_user mac now cs (delete_group group_id) d"

text \<open>The states of the store that the application can reach from the empty one.\<close>

inductive reachable :: "db \<Rightarrow> bool" where
  reachable_empty: "reachable empty_db"
| reachable_serve: "reachable d \<Longrightarrow> reachable (snd (serve ctx mac now salt cs req d))"

subsection \<open>Invariants of the store\<close>

text \<open>
  \<open>primary_keys\<close>: the \<^verbatim>\<open>id\<close> column of each table is its primary key, so no two rows
  share one. \<open>item_owner_inv\<close>: every item has a group, and a group that an item names
  has the item's owner.
\<close>

definition primary_keys :: "db \<Rightarrow> bool" where
  "primary_keys d \<longleftrightarrow>
     distinct (map u_id (users d)) \<and> distinct (map g_id (debt_groups d)) \<and>
     distinct (map i_id (debt_items d))"

definition item_owner_inv :: "db \<Rightarrow> bool" where
  "item_owner_inv d \<longleftrightarrow>
     (\<forall>i \<in> set (debt_items d).
        (\<exists>g \<in> set (debt_groups d). g_id g = i_group_id i) \<and>
        (\<forall>g \<in> set (debt_groups d). g_id g = i_group_id i \<longrightarrow> g_user_id g = i_user_id i))"

definition store_inv :: "db \<Rightarrow> bool" where
  "store_inv d \<longleftrightarrow> primary_keys d \<and> item_owner_inv d"

subsection \<open>An example store\<close>

text \<open>
  Two users, Ann and Bob; Ann owns one group with three items of 10, -3.5 and 2. The
  password context of the examples is the bcrypt scheme over a stand-in computation that
  writes the ident, the two-character salt and the password; the signer gives every text
  the same twenty bytes. Both are stand-ins: the theorems below that are stated for a
  context \<open>ctx\<close> and a signer \<open>mac\<close> hold for every one.
\<close>

definition ex_bcrypt :: bcrypt where
  "ex_bcrypt =
     \<lparr>crypt = (\<lambda>salt secret. ''$2b$'' @ salt @ secret),
      salt_of = (\<lambda>h. if startswith h ''$2b$'' \<and> 6 \<le> length h then Some (take 2 (drop 4 h))
                      else None)\<rparr>"

definition ex_ctx :: crypt_context where
  "ex_ctx = bcrypt_handler ex_bcrypt"

definition ex_mac :: signer where
  "ex_mac = (\<lambda>v. ''0123456789abcdefghij'')"

definition ann :: user where
  "ann = \<lparr>u_id = 1, u_username = ''ann'', u_password_hash = ''$2b$s1pw''\<rparr>"

definition bob :: user where
  "bob = \<lparr>u_id = 2, u_username = ''bob'', u_password_hash = ''$2b$s2qw''\<rparr>"

definition ex_group :: debt_group where
  "ex_group = \<lparr>g_id = 1, g_user_id = 1, g_name = ''rent'', g_created_at = 30\<rparr>"

definition ex_items :: "debt_item list" where
  "ex_items =
     [\<lparr>i_id = 1, i_user_id = 1, i_group_id = 1, i_amount = 10, i_note = None,
        i_created_at = 40\<rparr>,
      \<lparr>i_id = 2, i_user_id = 1, i_group_id = 1, i_amount = - 3.5, i_note = None,
        i_created_at = 50\<rparr>,
      \<lparr>i_id = 3, i_user_id = 1, i_group_id = 1, i_amount = 2, i_note = Some ''tea'',
        i_created_at = 60\<rparr>]"

definition ex_db :: db where
  "ex_db = \<lparr>users = [ann, bob], debt_groups = [ex_group], debt_items = ex_items\<rparr>"

definition ann_cookies :: cookies where
  "ann_cookies = [(''session'', create_session_token ex_mac 10 1)]"

section \<open>Credentials and tokens\<close>

subsection \<open>Password verification\<close>

text \<open>
  C2, as stated: for every plaintext and every digest, malformed ones included,
  \<open>verify_password\<close> returns a boolean and never raises. It fails on the code: with a
  digest that carries no bcrypt ident the context cannot identify a scheme and raises,
  and \<open>verify_password\<close> has no handler, whatever the bcrypt scheme itself would answer.
\<close>

theorem verify_password_raises_on_malformed_digest:
  "verify_password
     \<lparr>scheme_hash = (\<lambda>salt secret. Inr secret), scheme_verify = (\<lambda>secret h. Inr True)\<rparr>
     ''hunter2'' ''not-a-bcrypt-digest'' = Inl UnknownHashError"
  by (simp add: verify_password_def pwd_context_verify_def bcrypt_identify_def
      bcrypt_ident_values_def startswith_def)

text \<open>
  C2, amended: \<open>verify_password\<close> returns what the password context returns and catches
  nothing. On a digest with a bcrypt ident its result is the bcrypt scheme's (a boolean,
  or the scheme's own exception); on any other digest it raises \<open>UnknownHashError\<close>
  instead of returning false.
\<close>

theorem verify_password_propagates:
  "(bcrypt_identify h \<longrightarrow> verify_password ctx p h = scheme_verify ctx p h) \<and>
   (\<not> bcrypt_identify h \<longrightarrow> verify_password ctx p h = Inl UnknownHashError)"
  by (simp add: verify_password_def pwd_context_verify_def)

theorem verify_password_propagates_witness:
  "bcrypt_identify ''$2b$12$abc'' \<and>
   verify_password
     \<lparr>scheme_hash = (\<lambda>salt secret. Inr secret),
      scheme_verify = (\<lambda>secret h. Inr (secret = ''pw''))\<rparr>
     ''pw'' ''$2b$12$abc'' = Inr True \<and>
   \<not> bcrypt_identify ''abc'' \<and>
   verify_password
     \<lparr>scheme_hash = (\<lambda>salt secret. Inr secret),
      scheme_verify = (\<lambda>secret h. Inr (secret = ''pw''))\<rparr>
     ''pw'' ''abc'' = Inl UnknownHashError"
proof -
  let ?ctx = "\<lparr>scheme_hash = (\<lambda>salt secret. Inr secret),
                scheme_verify = (\<lambda>secret h. Inr (secret = ''pw''))\<rparr>"
  have a: "bcrypt_identify ''$2b$12$abc''"
    by (simp add: bcrypt_identify_def bcrypt_ident_values_def startswith_def)
  have b: "\<not> bcrypt_identify ''abc''"
    by (simp add: bcrypt_identify_def bcrypt_ident_values_def startswith_def)
  show ?thesis
    using a b verify_password_propagates [of "''$2b$12$abc''" ?ctx "''pw''"]
      verify_password_propagates [of "''abc''" ?ctx "''pw''"]
    by simp
qed

subsection \<open>Base64\<close>

text \<open>Decoding what \<open>base64_encode\<close> wrote gives the bytes back: each character of the
  alphabet has the value it was written for, and the padding closes the last group.\<close>

lemma b64_value_char: "k < 64 \<Longrightarrow> b64_value (b64_char k) = Some k"
  by (auto simp: b64_value_def b64_char_def Let_def)

lemma pad_value: "b64_value CHR ''='' = None"
  by (simp add: b64_value_def)

lemma b64_char_not_pad: "k < 64 \<Longrightarrow> b64_char k \<noteq> CHR ''=''"
  using b64_value_char [of k] pad_value by auto

lemma of_char_div16: "(of_char b :: nat) div 16 < 16"
proof -
  have "(of_char b :: nat) < 16 * 16" by simp
  then show ?thesis by (simp only: less_mult_imp_div_less)
qed

lemma of_char_div64: "(of_char b :: nat) div 64 < 4"
proof -
  have "(of_char b :: nat) < 4 * 64" by simp
  then show ?thesis by (simp only: less_mult_imp_div_less)
qed

lemma byte1_last: "char_of ((of_char a :: nat) div 4 * 4 + (of_char a mod 4 * 16) div 16) = a"
  by simp

lemma byte2: "char_of (((of_char a :: nat) mod 4 * 16 + (of_char b :: nat) div 16) mod 16 * 16 +
    (of_char b mod 16 * 4 + (of_char c :: nat) div 64) div 4) = b"
  using of_char_div16 [of b] of_char_div64 [of c] by simp

lemma byte2_last: "char_of (((of_char a :: nat) mod 4 * 16 + (of_char b :: nat) div 16) mod 16 * 16 +
    (of_char b mod 16 * 4) div 4) = b"
  using of_char_div16 [of b] by simp

lemma byte3: "char_of (((of_char b :: nat) mod 16 * 4 + (of_char c :: nat) div 64) mod 4 * 64 +
    of_char c mod 64) = c"
  using of_char_div64 [of c] by simp

lemma digits_less:
  "(of_char a :: nat) div 4 < 64"
  "(of_char a :: nat) mod 4 * 16 + (of_char b :: nat) div 16 < 64"
  "(of_char b :: nat) mod 16 * 4 + (of_char c :: nat) div 64 < 64"
  "(of_char c :: nat) mod 64 < 64"
  "(of_char a :: nat) mod 4 * 16 < 64"
  "(of_char b :: nat) mod 16 * 4 < 64"
proof -
  have a: "(of_char a :: nat) < 64 * 4" by simp
  then show "(of_char a :: nat) div 4 < 64" by (simp only: less_mult_imp_div_less)
  have m4: "(of_char a :: nat) mod 4 < 4" "(of_char b :: nat) mod 16 < 16" by simp_all
  from m4 of_char_div16 [of b] show "(of_char a :: nat) mod 4 * 16 + (of_char b :: nat) div 16 < 64"
    by linarith
  from m4 of_char_div64 [of c] show "(of_char b :: nat) mod 16 * 4 + (of_char c :: nat) div 64 < 64"
    by linarith
  show "(of_char c :: nat) mod 64 < 64" by simp
  from m4 show "(of_char a :: nat) mod 4 * 16 < 64" by linarith
  from m4 show "(of_char b :: nat) mod 16 * 4 < 64" by linarith
qed


lemma byte1: "char_of ((of_char a :: nat) div 4 * 4 + (of_char a mod 4 * 16 + (of_char b :: nat) div 16) div 16) = a"
  using of_char_div16 [of b] by simp

lemma a2b_data:
  "b64_value c = Some v \<Longrightarrow> c \<noteq> CHR ''='' \<Longrightarrow>
   a2b_base64 q l p out (c # cs) =
     (if q = 0 then a2b_base64 1 v 0 out cs
      else if q = 1 then a2b_base64 2 (v mod 16) 0 (out @ [char_of (l * 4 + v div 16)]) cs
      else if q = 2 then a2b_base64 3 (v mod 4) 0 (out @ [char_of (l * 16 + v div 4)]) cs
      else a2b_base64 0 0 0 (out @ [char_of (l * 64 + v)]) cs)"
  by simp

lemma a2b_char0:
  "k < 64 \<Longrightarrow> a2b_base64 0 l p out (b64_char k # cs) = a2b_base64 1 k 0 out cs"
  by (simp add: a2b_data [OF b64_value_char b64_char_not_pad] del: a2b_base64.simps)

lemma a2b_char1:
  "k < 64 \<Longrightarrow> a2b_base64 1 l p out (b64_char k # cs) =
     a2b_base64 2 (k mod 16) 0 (out @ [char_of (l * 4 + k div 16)]) cs"
  by (simp add: a2b_data [OF b64_value_char b64_char_not_pad] del: a2b_base64.simps)

lemma a2b_char2:
  "k < 64 \<Longrightarrow> a2b_base64 2 l p out (b64_char k # cs) =
     a2b_base64 3 (k mod 4) 0 (out @ [char_of (l * 16 + k div 4)]) cs"
  by (simp add: a2b_data [OF b64_value_char b64_char_not_pad] del: a2b_base64.simps)

lemma a2b_char3:
  "k < 64 \<Longrightarrow> a2b_base64 3 l p out (b64_char k # cs) =
     a2b_base64 0 0 0 (out @ [char_of (l * 64 + k)]) cs"
  by (simp add: a2b_data [OF b64_value_char b64_char_not_pad] del: a2b_base64.simps)


lemma a2b_pad3: "a2b_base64 3 l 0 out (CHR ''='' # cs) = Some out"
  by simp

lemma a2b_pad2: "a2b_base64 2 l 0 out [CHR ''='', CHR ''=''] = Some out"
  by simp

lemma a2b_two:
  "a2b_base64 0 0 0 out
     (b64_char (of_char a div 4) # b64_char (of_char a mod 4 * 16 + of_char b div 16) # cs) =
   a2b_base64 2 ((of_char a mod 4 * 16 + of_char b div 16) mod 16) 0 (out @ [a]) cs"
  by (simp only: a2b_char0 [OF digits_less(1)] a2b_char1 [OF digits_less(2)] byte1)

lemma a2b_three:
  "a2b_base64 0 0 0 out
     (b64_char (of_char a div 4) # b64_char (of_char a mod 4 * 16 + of_char b div 16) #
      b64_char (of_char b mod 16 * 4 + of_char c div 64) # cs) =
   a2b_base64 3 ((of_char b mod 16 * 4 + of_char c div 64) mod 4) 0 (out @ [a] @ [b]) cs"
  by (simp only: a2b_two a2b_char2 [OF digits_less(3)] byte2 append_assoc)

lemma a2b_four:
  "a2b_base64 0 0 0 out
     (b64_char (of_char a div 4) # b64_char (of_char a mod 4 * 16 + of_char b div 16) #
      b64_char (of_char b mod 16 * 4 + of_char c div 64) # b64_char (of_char c mod 64) # cs) =
   a2b_base64 0 0 0 (out @ [a] @ [b] @ [c]) cs"
  by (simp only: a2b_three a2b_char3 [OF digits_less(4)] byte3 append_assoc)

lemma a2b_encode_quad:
  "a2b_base64 0 0 0 out (base64_encode (a # b # c # bs) @ rest) =
   a2b_base64 0 0 0 (out @ [a] @ [b] @ [c]) (base64_encode bs @ rest)"
  by (simp only: base64_encode.simps append_Cons append_Nil a2b_four)

lemma a2b_two_last:
  "a2b_base64 0 0 0 out (b64_char (of_char a div 4) # b64_char (of_char a mod 4 * 16) # cs) =
   a2b_base64 2 ((of_char a mod 4 * 16) mod 16) 0 (out @ [a]) cs"
  by (simp only: a2b_char0 [OF digits_less(1)] a2b_char1 [OF digits_less(5)] byte1_last)

lemma a2b_three_last:
  "a2b_base64 0 0 0 out
     (b64_char (of_char a div 4) # b64_char (of_char a mod 4 * 16 + of_char b div 16) #
      b64_char (of_char b mod 16 * 4) # cs) =
   a2b_base64 3 ((of_char b mod 16 * 4) mod 4) 0 (out @ [a] @ [b]) cs"
  by (simp only: a2b_two a2b_char2 [OF digits_less(6)] byte2_last append_assoc)

lemma pad_for_three: "replicate ((4 - length [c1, c2, c3 :: char] mod 4) mod 4) CHR ''='' = [CHR ''='']"
  by simp

lemma pad_for_two:
  "replicate ((4 - length [c1, c2 :: char] mod 4) mod 4) CHR ''='' = [CHR ''='', CHR ''='']"
proof -
  have "(4 - length [c1, c2] mod 4) mod 4 = Suc (Suc 0)" by simp
  then show ?thesis by (simp only: replicate.simps)
qed

lemma pad_for_none: "replicate ((4 - length ([] :: string) mod 4) mod 4) CHR ''='' = []"
  by simp

lemma a2b_encode:
  "a2b_base64 0 0 0 out
     (base64_encode bs @ replicate ((4 - length (base64_encode bs) mod 4) mod 4) CHR ''='') =
   Some (out @ bs)"
proof (induction bs arbitrary: out rule: base64_encode.induct)
  case (1 a b c bs)
  have len: "length (base64_encode (a # b # c # bs)) mod 4 = length (base64_encode bs) mod 4"
    by simp
  have "a2b_base64 0 0 0 out
     (base64_encode (a # b # c # bs) @
      replicate ((4 - length (base64_encode (a # b # c # bs)) mod 4) mod 4) CHR ''='') =
    a2b_base64 0 0 0 (out @ [a] @ [b] @ [c])
     (base64_encode bs @ replicate ((4 - length (base64_encode bs) mod 4) mod 4) CHR ''='')"
    by (simp only: len a2b_encode_quad)
  also have "\<dots> = Some ((out @ [a] @ [b] @ [c]) @ bs)" by (rule "1.IH")
  finally show ?case by (simp only: append_assoc append_Cons append_Nil)
next
  case (2 a b)
  show ?case
    by (simp only: base64_encode.simps pad_for_three append_Cons append_Nil a2b_three_last
        a2b_pad3 append_assoc)
next
  case (3 a)
  show ?case
    by (simp only: base64_encode.simps pad_for_two append_Cons append_Nil a2b_two_last a2b_pad2)
next
  case 4
  show ?case
    by simp
qed

lemma base64_decode_encode: "base64_decode (base64_encode bs) = Some bs"
  using a2b_encode [of "[]" bs] by (simp only: base64_decode_def append_Nil)

lemma verify_signature_encode: "verify_signature mac v (base64_encode (mac v))"
  by (simp add: verify_signature_def base64_decode_encode)




subsection \<open>Session tokens\<close>

text \<open>
  C3: reading a token that was just issued for a user identifier returns that
  identifier, for every identifier and every signer, as long as the token is read no
  later than \<open>SESSION_MAX_AGE\<close> seconds after it was issued (at \<open>t0\<close>, read at \<open>t1\<close>).
\<close>

theorem token_roundtrip:
  "t0 \<le> t1 \<Longrightarrow> t1 - t0 \<le> SESSION_MAX_AGE \<Longrightarrow>
   read_session_token mac t1 (create_session_token mac t0 uid) = Inr (Some uid)"
  by (simp add: read_session_token_def create_session_token_def dumps_def loads_def
      dict_get_def verify_signature_encode)

theorem token_roundtrip_witness:
  "(1000::int) \<le> 1000 + 1209600 \<and> (1000 + 1209600) - 1000 \<le> SESSION_MAX_AGE \<and>
   read_session_token ex_mac (1000 + 1209600) (create_session_token ex_mac 1000 7) =
     Inr (Some 7)"
proof -
  have a: "(1000::int) \<le> 1000 + 1209600" by simp
  have b: "(1000 + 1209600) - 1000 \<le> SESSION_MAX_AGE" by (simp add: SESSION_MAX_AGE_def)
  show ?thesis using a b token_roundtrip [OF a b, of ex_mac 7] by simp
qed









subsection \<open>Session resolution\<close>

text \<open>
  C10: a request whose session token has a valid signature and is not expired, but
  whose payload holds the user identifier 0, or null, or no \<open>user_id\<close> at all, is
  unauthenticated: \<open>read_session_token\<close> returns 0 or \<open>None\<close> without raising, and
  \<open>get_current_user\<close> raises the 401 whatever the store holds, a user with identifier
  0 included.
\<close>

theorem get_current_user_falsy_id:
  "map_of cs SESSION_COOKIE = Some (Signed (Value (Json (Dict kvs)) ts k) sg) \<Longrightarrow>
   signature_valid mac (Signed (Value (Json (Dict kvs)) ts k) sg) \<Longrightarrow>
   ts \<le> now \<Longrightarrow> now - ts \<le> SESSION_MAX_AGE \<Longrightarrow>
   map_of kvs ''user_id'' = None \<or> map_of kvs ''user_id'' = Some None \<or>
   map_of kvs ''user_id'' = Some (Some 0) \<Longrightarrow>
   (read_session_token mac now (Signed (Value (Json (Dict kvs)) ts k) sg) = Inr None \<or>
    read_session_token mac now (Signed (Value (Json (Dict kvs)) ts k) sg) = Inr (Some 0)) \<and>
   get_current_user mac now cs d = Inl (HTTPException 401 None)"
  by (auto simp: get_current_user_def read_session_token_def loads_def signature_valid_def
      dict_get_def)

theorem get_current_user_falsy_id_witness:
  "read_session_token ex_mac 2000 (create_session_token ex_mac 1000 0) = Inr (Some 0) \<and>
   get_current_user ex_mac 2000 [(''session'', create_session_token ex_mac 1000 0)]
     \<lparr>users = [\<lparr>u_id = 0, u_username = ''root'', u_password_hash = ''$2b$x''\<rparr>],
       debt_groups = [], debt_items = []\<rparr>
   = Inl (HTTPException 401 None)"
proof -
  let ?v = "Value (Json (Dict [(''user_id'', Some 0)])) 1000 0"
  let ?tok = "Signed ?v (base64_encode (ex_mac ?v))"
  have tok: "create_session_token ex_mac 1000 0 = ?tok"
    by (simp add: create_session_token_def dumps_def)
  have a: "map_of [(''session'', ?tok)] SESSION_COOKIE = Some ?tok"
    by (simp add: SESSION_COOKIE_def)
  have b: "signature_valid ex_mac ?tok"
    by (simp add: signature_valid_def verify_signature_encode)
  have c: "(1000::int) \<le> 2000" "2000 - 1000 \<le> SESSION_MAX_AGE"
    by (simp_all add: SESSION_MAX_AGE_def)
  have e: "map_of [(''user_id'', Some (0::int))] ''user_id'' = None \<or>
           map_of [(''user_id'', Some (0::int))] ''user_id'' = Some None \<or>
           map_of [(''user_id'', Some (0::int))] ''user_id'' = Some (Some 0)"
    by simp
  have r: "read_session_token ex_mac 2000 ?tok \<noteq> Inr None"
    by (simp add: read_session_token_def loads_def dict_get_def SESSION_MAX_AGE_def
        verify_signature_encode)
  show ?thesis
    using r get_current_user_falsy_id [OF a b c e] by (simp add: tok)
qed

section \<open>The store and its handlers\<close>

subsection \<open>Lookups and fresh identifiers\<close>

lemma find_SomeD: "find P xs = Some x \<Longrightarrow> x \<in> set xs \<and> P x"
  by (induction xs) (auto split: if_splits)

lemma find_Some_ex: "\<exists>x\<in>set xs. P x \<Longrightarrow> \<exists>y. find P xs = Some y"
  by (cases "find P xs") (auto simp: find_None_iff)

lemma find_group_NoneI:
  "\<forall>g \<in> set (debt_groups d). g_id g = gid \<longrightarrow> g_user_id g \<noteq> u_id a \<Longrightarrow>
   find_group gid a d = None"
  by (auto simp: find_group_def find_None_iff)

lemma find_item_NoneI:
  "\<forall>i \<in> set (debt_items d). i_id i = iid \<longrightarrow> i_user_id i \<noteq> u_id a \<Longrightarrow>
   find_item iid gid a d = None"
  by (auto simp: find_item_def find_None_iff)

lemma fold_max_ge: "(m::int) \<le> fold max xs m"
proof (induction xs arbitrary: m)
  case Nil
  show ?case by simp
next
  case (Cons y ys)
  have "m \<le> max y m" by simp
  also have "max y m \<le> fold max ys (max y m)" by (rule Cons.IH)
  finally show ?case by simp
qed

lemma fold_max_mem: "(x::int) \<in> set xs \<Longrightarrow> x \<le> fold max xs m"
proof (induction xs arbitrary: m)
  case Nil
  then show ?case by simp
next
  case (Cons y ys)
  show ?case
  proof (cases "x = y")
    case True
    have "max y m \<le> fold max ys (max y m)" by (rule fold_max_ge)
    with True show ?thesis by simp
  next
    case False
    with Cons show ?thesis by simp
  qed
qed

lemma next_id_fresh: "next_id ids \<notin> set ids"
proof
  assume "next_id ids \<in> set ids"
  then have "next_id ids \<le> fold max ids 0" by (rule fold_max_mem)
  then show False by (simp add: next_id_def)
qed

lemma next_id_simps:
  "next_id [] = 1" "next_id [1] = 2" "next_id [1, 2] = 3" "next_id [1, 2, 3] = 4"
  by (simp_all add: next_id_def)

lemmas ex_defs = ann_def bob_def ex_group_def ex_items_def ex_db_def ann_cookies_def

subsection \<open>Scoped lookups\<close>

text \<open>
  C1: for a caller \<open>a\<close> that \<^verbatim>\<open>require_user\<close> has resolved, the handlers that read or
  change a group (\<open>group_detail\<close>, \<open>add_item\<close>, \<open>delete_group\<close>) look the group up by
  its identifier and the caller's at once (\<open>find_group\<close>), and \<open>delete_item\<close> looks the
  item up by its identifier, the group's and the caller's (\<open>find_item\<close>). When no row
  with the identifier belongs to the caller, because there is none or because it is
  another user's, each handler raises the same \<open>HTTPException 404\<close> and leaves the
  store as it was: nothing in the outcome tells the two cases apart.
\<close>

theorem scoped_lookup_404:
  "((\<forall>g \<in> set (debt_groups d). g_id g = gid \<longrightarrow> g_user_id g \<noteq> u_id a) \<longrightarrow>
      group_detail gid a d = (Inl (HTTPException 404 None), d) \<and>
      add_item now gid amount note a d = (Inl (HTTPException 404 None), d) \<and>
      delete_group gid a d = (Inl (HTTPException 404 None), d)) \<and>
   ((\<forall>i \<in> set (debt_items d). i_id i = iid \<longrightarrow> i_user_id i \<noteq> u_id a) \<longrightarrow>
      delete_item gid' iid a d = (Inl (HTTPException 404 None), d))"
proof (intro conjI impI)
  assume h: "\<forall>g \<in> set (debt_groups d). g_id g = gid \<longrightarrow> g_user_id g \<noteq> u_id a"
  have n: "find_group gid a d = None" by (rule find_group_NoneI [OF h])
  show "group_detail gid a d = (Inl (HTTPException 404 None), d)"
    by (simp add: group_detail_def n)
  show "add_item now gid amount note a d = (Inl (HTTPException 404 None), d)"
    by (simp add: add_item_def n)
  show "delete_group gid a d = (Inl (HTTPException 404 None), d)"
    by (simp add: delete_group_def n)
next
  assume h: "\<forall>i \<in> set (debt_items d). i_id i = iid \<longrightarrow> i_user_id i \<noteq> u_id a"
  show "delete_item gid' iid a d = (Inl (HTTPException 404 None), d)"
    by (simp add: delete_item_def find_item_NoneI [OF h])
qed

text \<open>Bob asks for Ann's group 1 and item 1, then for a group 9 and an item 99 that do
  not exist.\<close>

theorem scoped_lookup_404_witness:
  "group_detail 1 bob ex_db = (Inl (HTTPException 404 None), ex_db) \<and>
   group_detail 9 bob ex_db = (Inl (HTTPException 404 None), ex_db) \<and>
   add_item 70 1 5 None bob ex_db = (Inl (HTTPException 404 None), ex_db) \<and>
   add_item 70 9 5 None bob ex_db = (Inl (HTTPException 404 None), ex_db) \<and>
   delete_group 1 bob ex_db = (Inl (HTTPException 404 None), ex_db) \<and>
   delete_group 9 bob ex_db = (Inl (HTTPException 404 None), ex_db) \<and>
   delete_item 1 1 bob ex_db = (Inl (HTTPException 404 None), ex_db) \<and>
   delete_item 1 99 bob ex_db = (Inl (HTTPException 404 None), ex_db)"
proof -
  have g1: "\<forall>g \<in> set (debt_groups ex_db). g_id g = 1 \<longrightarrow> g_user_id g \<noteq> u_id bob"
    by (simp add: ex_defs)
  have g9: "\<forall>g \<in> set (debt_groups ex_db). g_id g = 9 \<longrightarrow> g_user_id g \<noteq> u_id bob"
    by (simp add: ex_defs)
  have i1: "\<forall>i \<in> set (debt_items ex_db). i_id i = 1 \<longrightarrow> i_user_id i \<noteq> u_id bob"
    by (simp add: ex_defs)
  have i99: "\<forall>i \<in> set (debt_items ex_db). i_id i = 99 \<longrightarrow> i_user_id i \<noteq> u_id bob"
    by (simp add: ex_defs)
  show ?thesis
    using g1 g9 i1 i99
      scoped_lookup_404 [of ex_db 1 bob 70 5 None 1 1]
      scoped_lookup_404 [of ex_db 9 bob 70 5 None 99 1]
    by simp
qed

subsection \<open>Registration and login\<close>

text \<open>
  C5, as stated: a registration with a username that exists is refused with a message
  and leaves the stored credentials as they were, and a registration with a fresh
  username creates the user, sets the cookie and redirects. The second half fails on
  the code: with a fresh username and a password that holds a NUL byte, hashing raises,
  the exception leaves \<open>register\<close>, and no user is created.
\<close>

theorem register_raises_on_nul_password:
  "find (\<lambda>u. u_username u = ''cy'') (users ex_db) = None \<and>
   register ex_ctx ex_mac 70 ''s3'' ''cy'' [CHR ''z'', CHR 0x00] ex_db =
     (Inl PasswordValueError, ex_db)"
  by (simp add: register_def hash_password_def pwd_context_hash_def ex_ctx_def
      bcrypt_handler_def ex_db_def ann_def bob_def)

text \<open>
  C5, amended: when a user with the given username exists, \<open>register\<close> answers with the
  registration form, the message that the name is taken and status 400, and returns the
  store unchanged: no user is created, and any later login is answered from the same
  rows as before, so the first account's credentials stay valid. When no user has the
  username and \<open>hash_password\<close> returns a digest for the password, \<open>register\<close> appends
  the user with a fresh identifier and that digest, and answers with a 302 redirect to
  \<^verbatim>\<open>/dashboard\<close> that sets the cookie \<^verbatim>\<open>session\<close> to a token issued for the new
  identifier, http-only and with same-site \<^verbatim>\<open>lax\<close>.
\<close>

theorem register_cases:
  "((\<exists>u \<in> set (users d). u_username u = username) \<longrightarrow>
      register ctx mac now salt username password d =
        (Inr (FormResponse ''register.html'' (Some Username_taken) 400), d) \<and>
      login ctx mac now' username password'
        (snd (register ctx mac now salt username password d)) =
      login ctx mac now' username password' d) \<and>
   ((\<forall>u \<in> set (users d). u_username u \<noteq> username) \<and>
    hash_password ctx salt password = Inr h \<longrightarrow>
      register ctx mac now salt username password d =
        (Inr (RedirectResponse (Path ''/dashboard'') 302
               [Set_cookie ''session''
                  (create_session_token mac now (next_id (map u_id (users d)))) True ''lax'']),
         d\<lparr>users := users d @
              [\<lparr>u_id = next_id (map u_id (users d)), u_username = username,
                u_password_hash = h\<rparr>]\<rparr>) \<and>
      next_id (map u_id (users d)) \<notin> set (map u_id (users d)))"
proof (intro conjI impI)
  assume "\<exists>u \<in> set (users d). u_username u = username"
  then obtain e where e: "find (\<lambda>u. u_username u = username) (users d) = Some e"
    using find_Some_ex [of "users d" "\<lambda>u. u_username u = username"] by blast
  show r: "register ctx mac now salt username password d =
        (Inr (FormResponse ''register.html'' (Some Username_taken) 400), d)"
    by (simp add: register_def e)
  show "login ctx mac now' username password'
        (snd (register ctx mac now salt username password d)) =
      login ctx mac now' username password' d"
    by (simp add: r)
next
  assume a: "(\<forall>u \<in> set (users d). u_username u \<noteq> username) \<and>
    hash_password ctx salt password = Inr h"
  then have n: "find (\<lambda>u. u_username u = username) (users d) = None"
    by (simp add: find_None_iff)
  from a have h: "hash_password ctx salt password = Inr h" by simp
  show "register ctx mac now salt username password d =
        (Inr (RedirectResponse (Path ''/dashboard'') 302
               [Set_cookie ''session''
                  (create_session_token mac now (next_id (map u_id (users d)))) True ''lax'']),
         d\<lparr>users := users d @
              [\<lparr>u_id = next_id (map u_id (users d)), u_username = username,
                u_password_hash = h\<rparr>]\<rparr>)"
    by (simp add: register_def n h session_cookie_def SESSION_COOKIE_def Let_def)
next
  show "next_id (map u_id (users d)) \<notin> set (map u_id (users d))"
    by (rule next_id_fresh)
qed

lemma ex_hash: "hash_password ex_ctx ''s3'' ''zz'' = Inr ''$2b$s3zz''"
  by (simp add: hash_password_def pwd_context_hash_def ex_ctx_def bcrypt_handler_def
      ex_bcrypt_def)

lemma ex_verify_password:
  "verify_password ex_ctx ''pw'' ''$2b$s1pw'' = Inr True"
  "verify_password ex_ctx ''bad'' ''$2b$s1pw'' = Inr False"
  "verify_password ex_ctx [CHR 0x00] ''$2b$s1pw'' = Inl PasswordValueError"
  by (simp_all add: verify_password_def pwd_context_verify_def bcrypt_identify_def
      bcrypt_ident_values_def startswith_def ex_ctx_def bcrypt_handler_def ex_bcrypt_def)

text \<open>Ann's name is registered again, with another password: refused, and Ann still logs
  in with her own. Then a new name, Cy, is registered.\<close>

theorem register_cases_witness:
  "register ex_ctx ex_mac 70 ''s3'' ''ann'' ''other'' ex_db =
     (Inr (FormResponse ''register.html'' (Some Username_taken) 400), ex_db) \<and>
   login ex_ctx ex_mac 80 ''ann'' ''pw''
     (snd (register ex_ctx ex_mac 70 ''s3'' ''ann'' ''other'' ex_db)) =
     (Inr (RedirectResponse (Path ''/dashboard'') 302
            [Set_cookie ''session'' (create_session_token ex_mac 80 1) True ''lax'']), ex_db) \<and>
   register ex_ctx ex_mac 70 ''s3'' ''cy'' ''zz'' ex_db =
     (Inr (RedirectResponse (Path ''/dashboard'') 302
            [Set_cookie ''session'' (create_session_token ex_mac 70 3) True ''lax'']),
      ex_db\<lparr>users := [ann, bob,
         \<lparr>u_id = 3, u_username = ''cy'', u_password_hash = ''$2b$s3zz''\<rparr>]\<rparr>)"
proof -
  have a: "\<exists>u \<in> set (users ex_db). u_username u = ''ann''"
    by (simp add: ex_db_def ann_def bob_def)
  have c: "\<forall>u \<in> set (users ex_db). u_username u \<noteq> ''cy''"
    by (simp add: ex_db_def ann_def bob_def)
  have l: "login ex_ctx ex_mac 80 ''ann'' ''pw'' ex_db =
     (Inr (RedirectResponse (Path ''/dashboard'') 302
            [Set_cookie ''session'' (create_session_token ex_mac 80 1) True ''lax'']), ex_db)"
    by (simp add: login_def ex_db_def ann_def bob_def ex_verify_password session_cookie_def
        SESSION_COOKIE_def)
  have us: "users ex_db = [ann, bob]"
    by (simp add: ex_db_def)
  show ?thesis
    using a c l
      register_cases [of ex_db "''ann''" ex_ctx ex_mac 70 "''s3''" "''other''" 80 "''pw''"
        "''$2b$s3zz''"]
      register_cases [of ex_db "''cy''" ex_ctx ex_mac 70 "''s3''" "''zz''" 80 "''pw''"
        "''$2b$s3zz''"]
    by (simp add: ex_hash us ann_def bob_def next_id_simps)
qed

text \<open>When \<open>verify_password\<close> returns false for the digest of the known user, the two
  failed logins get the same answer: the login form with the one message for invalid
  credentials and status 400, the store unchanged.\<close>

lemma login_rejected_alike:
  "\<forall>u \<in> set (users d). u_username u \<noteq> unknown \<Longrightarrow>
   \<exists>u \<in> set (users d). u_username u = known \<Longrightarrow>
   \<forall>u \<in> set (users d). u_username u = known \<longrightarrow>
      verify_password ctx wrong (u_password_hash u) = Inr False \<Longrightarrow>
   login ctx mac now unknown password d =
     (Inr (FormResponse ''login.html'' (Some Invalid_credentials) 400), d) \<and>
   login ctx mac now' known wrong d =
     (Inr (FormResponse ''login.html'' (Some Invalid_credentials) 400), d)"
proof (intro conjI)
  assume "\<forall>u \<in> set (users d). u_username u \<noteq> unknown"
  then have "find (\<lambda>u. u_username u = unknown) (users d) = None"
    by (simp add: find_None_iff)
  then show "login ctx mac now unknown password d =
     (Inr (FormResponse ''login.html'' (Some Invalid_credentials) 400), d)"
    by (simp add: login_def)
next
  assume ex: "\<exists>u \<in> set (users d). u_username u = known"
    and all: "\<forall>u \<in> set (users d). u_username u = known \<longrightarrow>
      verify_password ctx wrong (u_password_hash u) = Inr False"
  from ex obtain e where e: "find (\<lambda>u. u_username u = known) (users d) = Some e"
    using find_Some_ex [of "users d" "\<lambda>u. u_username u = known"] by blast
  from find_SomeD [OF e] all have "verify_password ctx wrong (u_password_hash e) = Inr False"
    by blast
  then show "login ctx mac now' known wrong d =
     (Inr (FormResponse ''login.html'' (Some Invalid_credentials) 400), d)"
    by (simp add: login_def e)
qed

text \<open>
  C8: a failed login with an unknown username and a failed login with a known username
  and a wrong password are to get the same message and status. The code tells them
  apart when the wrong password holds a NUL byte: for the unknown name Zed the lookup
  finds nobody and the answer is the login form with status 400; for Ann the password
  reaches \<open>verify_password\<close>, which raises, and the exception leaves \<open>login\<close>, a server
  error instead of the form.
\<close>

theorem login_tells_causes_apart:
  "login ex_ctx ex_mac 80 ''zed'' [CHR 0x00] ex_db =
     (Inr (FormResponse ''login.html'' (Some Invalid_credentials) 400), ex_db) \<and>
   login ex_ctx ex_mac 80 ''ann'' [CHR 0x00] ex_db = (Inl PasswordValueError, ex_db)"
  by (simp add: login_def ex_db_def ann_def bob_def ex_verify_password)

subsection \<open>The dashboard\<close>

lemma coalesce_sql_sum: "coalesce (sql_sum xs) 0 = sum_list xs"
  by (simp add: coalesce_def sql_sum_def)

lemma group_balance_sum:
  "group_balance d g =
   sum_list (map i_amount (filter (\<lambda>i. i_group_id i = g_id g) (debt_items d)))"
  by (simp add: group_balance_def coalesce_sql_sum)

lemma total_balance_sum:
  "total_balance d user =
   sum_list (map i_amount (filter (\<lambda>i. i_user_id i = u_id user) (debt_items d)))"
  by (simp add: total_balance_def coalesce_sql_sum Let_def)

lemma mset_order_by_desc: "mset (order_by_desc c rows) = mset rows"
  by (simp add: order_by_desc_def)

lemma set_order_by_desc: "set (order_by_desc c rows) = set rows"
  by (simp add: order_by_desc_def)

lemma sorted_order_by_desc: "sorted_wrt (\<lambda>a b. c a \<ge> c b) (order_by_desc c rows)"
proof -
  have "sorted (map (\<lambda>r. - c r) (order_by_desc c rows))"
    by (simp add: order_by_desc_def)
  then show ?thesis by (simp add: sorted_map)
qed

lemma group_balances_groups:
  "mset (map fst (group_balances d user)) =
   mset (filter (\<lambda>g. g_user_id g = u_id user) (debt_groups d))"
proof -
  have "mset (map fst (group_balances d user)) = image_mset fst (mset (group_balances d user))"
    by simp
  also have "\<dots> = image_mset fst (mset (map (\<lambda>g. (g, group_balance d g))
          (filter (\<lambda>g. g_user_id g = u_id user) (debt_groups d))))"
    by (simp only: group_balances_def mset_order_by_desc)
  also have "\<dots> = mset (filter (\<lambda>g. g_user_id g = u_id user) (debt_groups d))"
    by (simp add: image_mset.compositionality comp_def)
  finally show ?thesis .
qed

lemma group_balances_pairs:
  "(g, b) \<in> set (group_balances d user) \<Longrightarrow> b = group_balance d g"
  by (auto simp: group_balances_def set_order_by_desc)

text \<open>
  C6: for the user that \<^verbatim>\<open>require_user\<close> resolved, the dashboard shows the rows
  \<open>group_balances\<close> and the total \<open>total_balance\<close>. The rows hold exactly the groups
  whose owner is the user, each once, in order of decreasing creation time; each group
  is paired with the sum of the amounts of the items of that group, which is 0 for a
  group without items; the total is the sum of the amounts of the items whose owner is
  the user, 0 when there are none. When the user's items are exactly the items of one
  group, that group's balance is the total. Amounts are real numbers here.
\<close>

theorem dashboard_balances:
  "dashboard user d =
     (Inr (DashboardResponse user (group_balances d user) (total_balance d user)), d) \<and>
   mset (map fst (group_balances d user)) =
     mset (filter (\<lambda>g. g_user_id g = u_id user) (debt_groups d)) \<and>
   sorted_wrt (\<lambda>a b. g_created_at (fst a) \<ge> g_created_at (fst b)) (group_balances d user) \<and>
   (\<forall>(g, b) \<in> set (group_balances d user).
      b = sum_list (map i_amount (filter (\<lambda>i. i_group_id i = g_id g) (debt_items d)))) \<and>
   total_balance d user =
     sum_list (map i_amount (filter (\<lambda>i. i_user_id i = u_id user) (debt_items d))) \<and>
   ((\<forall>i \<in> set (debt_items d). (i_group_id i = g_id g') = (i_user_id i = u_id user)) \<longrightarrow>
      group_balance d g' = total_balance d user)"
proof (intro conjI impI)
  show "dashboard user d =
     (Inr (DashboardResponse user (group_balances d user) (total_balance d user)), d)"
    by (simp add: dashboard_def)
  show "mset (map fst (group_balances d user)) =
     mset (filter (\<lambda>g. g_user_id g = u_id user) (debt_groups d))"
    by (rule group_balances_groups)
  show "sorted_wrt (\<lambda>a b. g_created_at (fst a) \<ge> g_created_at (fst b)) (group_balances d user)"
    unfolding group_balances_def by (rule sorted_order_by_desc)
  show "\<forall>(g, b) \<in> set (group_balances d user).
      b = sum_list (map i_amount (filter (\<lambda>i. i_group_id i = g_id g) (debt_items d)))"
    using group_balances_pairs [of _ _ d user] by (auto simp: group_balance_sum)
  show "total_balance d user =
     sum_list (map i_amount (filter (\<lambda>i. i_user_id i = u_id user) (debt_items d)))"
    by (rule total_balance_sum)
next
  assume h: "\<forall>i \<in> set (debt_items d). (i_group_id i = g_id g') = (i_user_id i = u_id user)"
  then have "filter (\<lambda>i. i_group_id i = g_id g') (debt_items d) =
             filter (\<lambda>i. i_user_id i = u_id user) (debt_items d)"
    by (intro filter_cong) auto
  then show "group_balance d g' = total_balance d user"
    by (simp add: group_balance_sum total_balance_sum)
qed

text \<open>Ann's dashboard: her one group with the items 10, -3.5 and 2 has balance 8.5, and
  so has the total. Bob's dashboard has no group and total 0.\<close>

theorem dashboard_balances_witness:
  "dashboard ann ex_db = (Inr (DashboardResponse ann [(ex_group, 8.5)] 8.5), ex_db) \<and>
   filter (\<lambda>i. i_group_id i = g_id ex_group) (debt_items ex_db) =
     filter (\<lambda>i. i_user_id i = u_id ann) (debt_items ex_db) \<and>
   group_balance ex_db ex_group = total_balance ex_db ann \<and>
   dashboard bob ex_db = (Inr (DashboardResponse bob [] 0), ex_db)"
proof -
  have gb: "group_balances ex_db ann = [(ex_group, 8.5)]"
    by (simp add: group_balances_def group_balance_def coalesce_def sql_sum_def
        order_by_desc_def ex_defs)
  have tb: "total_balance ex_db ann = 8.5"
    by (simp add: total_balance_def coalesce_def sql_sum_def ex_defs)
  have gb': "group_balances ex_db bob = []"
    by (simp add: group_balances_def order_by_desc_def ex_defs)
  have tb': "total_balance ex_db bob = 0"
    by (simp add: total_balance_def coalesce_def sql_sum_def ex_defs)
  have one: "\<forall>i \<in> set (debt_items ex_db).
      (i_group_id i = g_id ex_group) = (i_user_id i = u_id ann)"
    by (simp add: ex_defs)
  show ?thesis
    using one dashboard_balances [of ann ex_db ex_group] dashboard_balances [of bob ex_db ex_group]
    by (simp add: gb tb gb' tb') (simp add: ex_defs)
qed

subsection \<open>Deleting a group\<close>

text \<open>
  C7: when the caller owns a group with the given identifier, \<open>delete_group\<close> redirects
  to the dashboard and returns a store with no group of that identifier and no item of
  that group. With item identifiers being primary keys, no row at all is left under the
  identifier of a former item of the group, and the item lookup of \<open>delete_item\<close> finds
  nothing under it, whichever group and user it is scoped to.
\<close>

theorem delete_group_cascades:
  assumes "g \<in> set (debt_groups d)" and "g_id g = gid" and "g_user_id g = u_id a"
    and "distinct (map i_id (debt_items d))"
  shows "fst (delete_group gid a d) = Inr (RedirectResponse (Path ''/dashboard'') 302 []) \<and>
    (\<forall>g' \<in> set (debt_groups (snd (delete_group gid a d))). g_id g' \<noteq> gid) \<and>
    (\<forall>i \<in> set (debt_items (snd (delete_group gid a d))). i_group_id i \<noteq> gid) \<and>
    (\<forall>it \<in> set (debt_items d). i_group_id it = gid \<longrightarrow>
       (\<forall>j \<in> set (debt_items (snd (delete_group gid a d))). i_id j \<noteq> i_id it) \<and>
       (\<forall>gid' u. find_item (i_id it) gid' u (snd (delete_group gid a d)) = None))"
proof -
  from assms(1-3) obtain g' where f: "find_group gid a d = Some g'"
    using find_Some_ex [of "debt_groups d" "\<lambda>g. g_id g = gid \<and> g_user_id g = u_id a"]
    by (auto simp: find_group_def)
  have gid: "g_id g' = gid"
    using find_SomeD [OF f [unfolded find_group_def]] by simp
  have r: "delete_group gid a d =
      (Inr (RedirectResponse (Path ''/dashboard'') 302 []), db_delete_group g' d)"
    by (simp add: delete_group_def f)
  have items: "debt_items (db_delete_group g' d) =
      filter (\<lambda>i. i_group_id i \<noteq> gid) (debt_items d)"
    by (simp add: db_delete_group_def gid)
  have groups: "debt_groups (db_delete_group g' d) =
      filter (\<lambda>x. g_id x \<noteq> gid) (debt_groups d)"
    by (simp add: db_delete_group_def gid)
  have gone: "i_id j \<noteq> i_id it"
    if "it \<in> set (debt_items d)" "i_group_id it = gid"
      "j \<in> set (debt_items (db_delete_group g' d))" for it j
  proof
    assume e: "i_id j = i_id it"
    from that(3) have j: "j \<in> set (debt_items d)" "i_group_id j \<noteq> gid"
      by (simp_all add: items)
    from assms(4) have "inj_on i_id (set (debt_items d))"
      by (simp add: distinct_map)
    with e j(1) that(1) have "j = it" by (auto dest: inj_onD)
    with j(2) that(2) show False by simp
  qed
  have lookup: "find_item (i_id it) gid' u (db_delete_group g' d) = None"
    if "it \<in> set (debt_items d)" "i_group_id it = gid" for it gid' u
    using gone [OF that] by (auto simp: find_item_def find_None_iff)
  show ?thesis
    using gone lookup by (simp add: r items groups)
qed

text \<open>Ann deletes her group 1: its three items go with it.\<close>

theorem delete_group_cascades_witness:
  "delete_group 1 ann ex_db =
     (Inr (RedirectResponse (Path ''/dashboard'') 302 []),
      \<lparr>users = [ann, bob], debt_groups = [], debt_items = []\<rparr>) \<and>
   find_item 1 1 ann (snd (delete_group 1 ann ex_db)) = None \<and>
   find_item 2 1 ann (snd (delete_group 1 ann ex_db)) = None \<and>
   find_item 3 1 ann (snd (delete_group 1 ann ex_db)) = None"
proof -
  have a: "ex_group \<in> set (debt_groups ex_db)" "g_id ex_group = 1"
    "g_user_id ex_group = u_id ann" "distinct (map i_id (debt_items ex_db))"
    by (simp_all add: ex_defs)
  have r: "delete_group 1 ann ex_db =
     (Inr (RedirectResponse (Path ''/dashboard'') 302 []),
      \<lparr>users = [ann, bob], debt_groups = [], debt_items = []\<rparr>)"
    by (simp add: delete_group_def find_group_def db_delete_group_def ex_db_def ex_group_def
        ex_items_def ann_def)
  show ?thesis
    using delete_group_cascades [OF a] r by (simp add: ex_db_def ex_items_def)
qed

subsection \<open>Owners of items and of their groups\<close>

lemma store_inv_empty: "store_inv empty_db"
  by (simp add: store_inv_def primary_keys_def item_owner_inv_def empty_db_def)

lemma store_inv_users:
  "store_inv d \<Longrightarrow> distinct (map u_id us) \<Longrightarrow> store_inv (d\<lparr>users := us\<rparr>)"
  by (simp add: store_inv_def primary_keys_def item_owner_inv_def)

lemma distinct_snoc_fresh:
  "distinct (map f xs) \<Longrightarrow> f x = next_id (map f xs) \<Longrightarrow> distinct (map f (xs @ [x]))"
  using next_id_fresh [of "map f xs"] by simp

lemma register_inv:
  assumes "store_inv d"
  shows "store_inv (snd (register ctx mac now salt username password d))"
proof (cases "find (\<lambda>u. u_username u = username) (users d)")
  case (Some e)
  with assms show ?thesis by (simp add: register_def)
next
  case None
  show ?thesis
  proof (cases "hash_password ctx salt password")
    case (Inl e)
    with None assms show ?thesis by (simp add: register_def)
  next
    case (Inr h)
    let ?u = "\<lparr>u_id = next_id (map u_id (users d)), u_username = username,
               u_password_hash = h\<rparr>"
    have s: "snd (register ctx mac now salt username password d) =
        d\<lparr>users := users d @ [?u]\<rparr>"
      by (simp add: register_def None Inr Let_def)
    from assms have "distinct (map u_id (users d))"
      by (simp add: store_inv_def primary_keys_def)
    then have "distinct (map u_id (users d @ [?u]))"
      by (rule distinct_snoc_fresh) simp
    with assms show ?thesis
      unfolding s by (rule store_inv_users)
  qed
qed

lemma login_state: "snd (login ctx mac now username password d) = d"
  by (simp add: login_def split: option.splits sum.splits)

lemma group_detail_state: "snd (group_detail gid user d) = d"
  by (simp add: group_detail_def Let_def split: option.splits)

lemma create_group_inv:
  assumes inv: "store_inv d"
  shows "store_inv (snd (create_group now name user d))"
proof -
  let ?n = "next_id (map g_id (debt_groups d))"
  let ?g = "\<lparr>g_id = ?n, g_user_id = u_id user, g_name = name, g_created_at = now\<rparr>"
  have s: "snd (create_group now name user d) = d\<lparr>debt_groups := debt_groups d @ [?g]\<rparr>"
    by (simp add: create_group_def Let_def)
  have fresh: "?n \<notin> g_id ` set (debt_groups d)"
    using next_id_fresh [of "map g_id (debt_groups d)"] by simp
  have other: "i_group_id i \<noteq> ?n" if "i \<in> set (debt_items d)" for i
  proof -
    from inv that obtain g where "g \<in> set (debt_groups d)" "g_id g = i_group_id i"
      unfolding store_inv_def item_owner_inv_def by blast
    with fresh show ?thesis by force
  qed
  from inv have pk: "primary_keys (d\<lparr>debt_groups := debt_groups d @ [?g]\<rparr>)"
    using fresh by (simp add: store_inv_def primary_keys_def)
  from inv have io: "item_owner_inv d" by (simp add: store_inv_def)
  have "item_owner_inv (d\<lparr>debt_groups := debt_groups d @ [?g]\<rparr>)"
    unfolding item_owner_inv_def
  proof
    fix i assume i: "i \<in> set (debt_items (d\<lparr>debt_groups := debt_groups d @ [?g]\<rparr>))"
    then have i': "i \<in> set (debt_items d)" by simp
    from io i' have a: "\<exists>g \<in> set (debt_groups d). g_id g = i_group_id i"
      and b: "\<forall>g \<in> set (debt_groups d). g_id g = i_group_id i \<longrightarrow> g_user_id g = i_user_id i"
      unfolding item_owner_inv_def by blast+
    from a b other [OF i']
    show "(\<exists>g \<in> set (debt_groups (d\<lparr>debt_groups := debt_groups d @ [?g]\<rparr>)). g_id g = i_group_id i) \<and>
          (\<forall>g \<in> set (debt_groups (d\<lparr>debt_groups := debt_groups d @ [?g]\<rparr>)).
              g_id g = i_group_id i \<longrightarrow> g_user_id g = i_user_id i)"
      by auto
  qed
  with pk show ?thesis by (simp add: s store_inv_def)
qed

lemma add_item_inv:
  assumes inv: "store_inv d"
  shows "store_inv (snd (add_item now gid amount note user d))"
proof (cases "find_group gid user d")
  case None
  with inv show ?thesis by (simp add: add_item_def)
next
  case (Some g)
  let ?it = "\<lparr>i_id = next_id (map i_id (debt_items d)), i_user_id = u_id user,
               i_group_id = g_id g, i_amount = amount, i_note = note, i_created_at = now\<rparr>"
  have s: "snd (add_item now gid amount note user d) = d\<lparr>debt_items := debt_items d @ [?it]\<rparr>"
    by (simp add: add_item_def Some Let_def)
  from Some have g: "g \<in> set (debt_groups d)" "g_user_id g = u_id user"
    using find_SomeD [of "\<lambda>g. g_id g = gid \<and> g_user_id g = u_id user" "debt_groups d" g]
    by (simp_all add: find_group_def)
  from inv have "inj_on g_id (set (debt_groups d))"
    by (simp add: store_inv_def primary_keys_def distinct_map)
  with g have same: "g' = g" if "g' \<in> set (debt_groups d)" "g_id g' = g_id g" for g'
    using that by (auto dest: inj_onD)
  have fresh: "next_id (map i_id (debt_items d)) \<notin> i_id ` set (debt_items d)"
    using next_id_fresh [of "map i_id (debt_items d)"] by simp
  from inv have pk: "primary_keys (d\<lparr>debt_items := debt_items d @ [?it]\<rparr>)"
    using fresh by (simp add: store_inv_def primary_keys_def)
  from inv have io: "item_owner_inv d" by (simp add: store_inv_def)
  have "item_owner_inv (d\<lparr>debt_items := debt_items d @ [?it]\<rparr>)"
    unfolding item_owner_inv_def
  proof
    fix i assume "i \<in> set (debt_items (d\<lparr>debt_items := debt_items d @ [?it]\<rparr>))"
    then consider "i \<in> set (debt_items d)" | "i = ?it" by auto
    then show "(\<exists>g \<in> set (debt_groups (d\<lparr>debt_items := debt_items d @ [?it]\<rparr>)). g_id g = i_group_id i) \<and>
          (\<forall>g \<in> set (debt_groups (d\<lparr>debt_items := debt_items d @ [?it]\<rparr>)).
              g_id g = i_group_id i \<longrightarrow> g_user_id g = i_user_id i)"
    proof cases
      case 1
      with io show ?thesis unfolding item_owner_inv_def by simp
    next
      case 2
      with g same show ?thesis by auto
    qed
  qed
  with pk show ?thesis by (simp add: s store_inv_def)
qed

lemma item_owner_inv_filter_items:
  "item_owner_inv d \<Longrightarrow> item_owner_inv (d\<lparr>debt_items := filter P (debt_items d)\<rparr>)"
  by (simp add: item_owner_inv_def)

lemma primary_keys_filter_items:
  "primary_keys d \<Longrightarrow> primary_keys (d\<lparr>debt_items := filter P (debt_items d)\<rparr>)"
  by (simp add: primary_keys_def distinct_map_filter)

lemma delete_item_inv:
  assumes inv: "store_inv d"
  shows "store_inv (snd (delete_item gid iid user d))"
proof (cases "find_item iid gid user d")
  case None
  with inv show ?thesis by (simp add: delete_item_def)
next
  case (Some it)
  have s: "snd (delete_item gid iid user d) =
      d\<lparr>debt_items := filter (\<lambda>i. i_id i \<noteq> i_id it) (debt_items d)\<rparr>"
    by (simp add: delete_item_def Some db_delete_item_def)
  from inv show ?thesis
    unfolding s store_inv_def
    by (simp only: item_owner_inv_filter_items primary_keys_filter_items simp_thms)
qed

lemma delete_group_inv:
  assumes inv: "store_inv d"
  shows "store_inv (snd (delete_group gid user d))"
proof (cases "find_group gid user d")
  case None
  with inv show ?thesis by (simp add: delete_group_def)
next
  case (Some g)
  let ?d' = "d\<lparr>debt_groups := filter (\<lambda>g'. g_id g' \<noteq> g_id g) (debt_groups d),
               debt_items := filter (\<lambda>i. i_group_id i \<noteq> g_id g) (debt_items d)\<rparr>"
  have s: "snd (delete_group gid user d) = ?d'"
    by (simp add: delete_group_def Some db_delete_group_def)
  from inv have pk: "primary_keys ?d'"
    by (simp add: store_inv_def primary_keys_def distinct_map_filter)
  from inv have io: "item_owner_inv d" by (simp add: store_inv_def)
  have "item_owner_inv ?d'"
    unfolding item_owner_inv_def
  proof
    fix i assume "i \<in> set (debt_items ?d')"
    then have i: "i \<in> set (debt_items d)" "i_group_id i \<noteq> g_id g" by simp_all
    from io i(1) have a: "\<exists>g' \<in> set (debt_groups d). g_id g' = i_group_id i"
      and b: "\<forall>g' \<in> set (debt_groups d). g_id g' = i_group_id i \<longrightarrow> g_user_id g' = i_user_id i"
      unfolding item_owner_inv_def by blast+
    from a b i(2)
    show "(\<exists>g' \<in> set (debt_groups ?d'). g_id g' = i_group_id i) \<and>
          (\<forall>g' \<in> set (debt_groups ?d'). g_id g' = i_group_id i \<longrightarrow> g_user_id g' = i_user_id i)"
      by auto
  qed
  with pk show ?thesis by (simp only: s store_inv_def simp_thms)
qed

lemma with_user_inv:
  assumes "\<And>user. store_inv (snd (handler user d))" and "store_inv d"
  shows "store_inv (snd (with_user mac now cs handler d))"
  using assms by (simp add: with_user_def split: sum.splits)

lemma serve_inv:
  assumes inv: "store_inv d"
  shows "store_inv (snd (serve ctx mac now salt cs req d))"
proof (cases req)
  case (Register u p)
  with inv show ?thesis by (simp add: register_inv)
next
  case (Login u p)
  with inv show ?thesis by (simp add: login_state)
next
  case Logout
  with inv show ?thesis by (simp add: logout_def)
next
  case Dashboard
  with inv show ?thesis by (simp add: with_user_inv dashboard_def)
next
  case (Create_group n)
  with inv show ?thesis by (simp add: with_user_inv create_group_inv)
next
  case (Group_detail g)
  with inv show ?thesis by (simp add: with_user_inv group_detail_state)
next
  case (Add_item g a n)
  with inv show ?thesis by (simp add: with_user_inv add_item_inv)
next
  case (Delete_item g i)
  with inv show ?thesis by (simp add: with_user_inv delete_item_inv)
next
  case (Delete_group g)
  with inv show ?thesis by (simp add: with_user_inv delete_group_inv)
qed

lemma reachable_store_inv: "reachable d \<Longrightarrow> store_inv d"
  by (induction rule: reachable.induct) (simp_all add: store_inv_empty serve_inv)

lemma require_ann:
  "10 \<le> now \<Longrightarrow> now \<le> 1000 \<Longrightarrow>
   require_user ex_mac now ann_cookies (d\<lparr>users := [ann, bob]\<rparr>) = Inr ann"
  by (simp add: require_user_def get_current_user_def read_session_token_def loads_def
      create_session_token_def dumps_def dict_get_def SESSION_COOKIE_def SESSION_MAX_AGE_def
      verify_signature_encode ex_defs)

text \<open>The example store is reached by two registrations, Ann creating her group and
  adding the three items.\<close>

lemma ex_db_reachable: "reachable ex_db"
proof -
  let ?d1 = "\<lparr>users = [ann], debt_groups = [], debt_items = []\<rparr>"
  let ?d2 = "\<lparr>users = [ann, bob], debt_groups = [], debt_items = []\<rparr>"
  let ?d3 = "\<lparr>users = [ann, bob], debt_groups = [ex_group], debt_items = []\<rparr>"
  let ?d4 = "\<lparr>users = [ann, bob], debt_groups = [ex_group], debt_items = take 1 ex_items\<rparr>"
  let ?d5 = "\<lparr>users = [ann, bob], debt_groups = [ex_group], debt_items = take 2 ex_items\<rparr>"
  have h: "hash_password ex_ctx ''s1'' ''pw'' = Inr ''$2b$s1pw''"
    "hash_password ex_ctx ''s2'' ''qw'' = Inr ''$2b$s2qw''"
    by (simp_all add: hash_password_def pwd_context_hash_def ex_ctx_def bcrypt_handler_def
        ex_bcrypt_def)
  have s1: "snd (serve ex_ctx ex_mac 10 ''s1'' [] (Register ''ann'' ''pw'') empty_db) = ?d1"
    by (simp add: register_def empty_db_def h next_id_simps ex_defs)
  have s2: "snd (serve ex_ctx ex_mac 20 ''s2'' [] (Register ''bob'' ''qw'') ?d1) = ?d2"
    by (simp add: register_def h next_id_simps ex_defs)
  have s3: "snd (serve ex_ctx ex_mac 30 [] ann_cookies (Create_group ''rent'') ?d2) = ?d3"
    using require_ann [of 30 ?d2]
    by (simp add: with_user_def create_group_def next_id_simps)
      (simp add: ex_defs)
  have s4: "snd (serve ex_ctx ex_mac 40 [] ann_cookies (Add_item 1 10 None) ?d3) = ?d4"
    using require_ann [of 40 ?d3]
    by (simp add: with_user_def add_item_def find_group_def next_id_simps)
      (simp add: ex_defs next_id_simps)
  have s5: "snd (serve ex_ctx ex_mac 50 [] ann_cookies (Add_item 1 (- 3.5) None) ?d4) = ?d5"
    using require_ann [of 50 ?d4]
    by (simp add: with_user_def add_item_def find_group_def)
      (simp add: ex_defs next_id_simps)
  have s6: "snd (serve ex_ctx ex_mac 60 [] ann_cookies (Add_item 1 2 (Some ''tea'')) ?d5) = ex_db"
    using require_ann [of 60 ?d5]
    by (simp add: with_user_def add_item_def find_group_def)
      (simp add: ex_defs next_id_simps)
  have "reachable ?d1" using reachable_serve [OF reachable_empty] s1 by metis
  then have "reachable ?d2" using reachable_serve s2 by metis
  then have "reachable ?d3" using reachable_serve s3 by metis
  then have "reachable ?d4" using reachable_serve s4 by metis
  then have "reachable ?d5" using reachable_serve s5 by metis
  then show ?thesis using reachable_serve s6 by metis
qed

text \<open>
  C9: in every store the application can reach from the empty one, every item has a
  group, and the group an item names has the item's owner. The invariant holds again
  after any further request, whatever its cookies, context, signer and clock: the only
  handler that creates an item, \<open>add_item\<close>, takes the item's owner and the owner it
  looks the group up by from the same resolved user, and no handler updates a row.
\<close>

theorem item_owner_invariant:
  "reachable d \<Longrightarrow>
   item_owner_inv d \<and> item_owner_inv (snd (serve ctx mac now salt cs req d))"
  using reachable_store_inv [of d]
    reachable_store_inv [of "snd (serve ctx mac now salt cs req d)"]
    reachable_serve [of d ctx mac now salt cs req]
  by (simp add: store_inv_def)

text \<open>The example store, and the store after Ann adds a fourth item to her group.\<close>

theorem item_owner_invariant_witness:
  "reachable ex_db \<and> item_owner_inv ex_db \<and>
   debt_items (snd (serve ex_ctx ex_mac 70 [] ann_cookies (Add_item 1 4 None) ex_db)) =
     ex_items @ [\<lparr>i_id = 4, i_user_id = 1, i_group_id = 1, i_amount = 4, i_note = None,
                  i_created_at = 70\<rparr>] \<and>
   item_owner_inv (snd (serve ex_ctx ex_mac 70 [] ann_cookies (Add_item 1 4 None) ex_db))"
proof -
  have s: "debt_items (snd (serve ex_ctx ex_mac 70 [] ann_cookies (Add_item 1 4 None) ex_db)) =
     ex_items @ [\<lparr>i_id = 4, i_user_id = 1, i_group_id = 1, i_amount = 4, i_note = None,
                  i_created_at = 70\<rparr>]"
    using require_ann [of 70 ex_db]
    by (simp add: with_user_def add_item_def find_group_def ex_db_def)
      (simp add: ex_defs next_id_simps)
  show ?thesis
    using ex_db_reachable s
      item_owner_invariant [OF ex_db_reachable, of ex_ctx ex_mac 70 "[]" ann_cookies
        "Add_item 1 4 None"]
    by simp
qed

end
